theory Spec2Isabelle
  imports Complex_Main "HOL-Library.Multiset"
begin

section \<open>The embedding store (class VectorStore)\<close>

text \<open>
  The store is the private array \<open>entries\<close> of \<open>{text, embedding}\<close> objects, kept in
  insertion order. A string is the list of its code units, so that \<open>length\<close> is
  \<open>.length\<close>, and \<open>===\<close> on strings is equality.
  The field \<open>text\<close> is written \<open>text_e\<close> here (\<open>text_s\<close> in a \<open>Similarity\<close>).

  The code computes in the numbers of the JavaScript engine (IEEE doubles, with
  rounding, infinities and NaN). Their arithmetic is a built-in of the language, not
  code of the repository, so the type \<open>'n\<close> of numbers is left open and the
  operations the code uses are a parameter of every function that computes: nothing
  below depends on how the engine rounds.
\<close>

record 'n VectorEntry =
  text_e :: string
  embedding :: "'n list"

record 'n Similarity =
  text_s :: string
  similarity :: 'n

text \<open>
  The operations on numbers the store uses: the literal \<open>0\<close>, \<open>+\<close>, \<open>-\<close>, \<open>*\<close>,
  \<open>/\<close>, \<open>Math.sqrt\<close>, the test \<open>x === 0\<close>, and the sign \<open>Array.prototype.sort\<close>
  reads off the number its comparator returns (negative, zero or positive; the
  standard has it read NaN as zero).
\<close>

record 'n numbers =
  num_zero :: 'n
  num_add :: "'n \<Rightarrow> 'n \<Rightarrow> 'n"
  num_sub :: "'n \<Rightarrow> 'n \<Rightarrow> 'n"
  num_mul :: "'n \<Rightarrow> 'n \<Rightarrow> 'n"
  num_div :: "'n \<Rightarrow> 'n \<Rightarrow> 'n"
  num_sqrt :: "'n \<Rightarrow> 'n"
  num_is_zero :: "'n \<Rightarrow> bool"
  num_sign :: "'n \<Rightarrow> int"

text \<open>
  \<open>Array.prototype.sort\<close>, the other built-in: from the comparator and the array to
  the sorted array. It is a parameter too; what the standard promises of it is a
  hypothesis where a theorem needs it.
\<close>

type_synonym 'n array_sort =
  "('n Similarity \<Rightarrow> 'n Similarity \<Rightarrow> 'n) \<Rightarrow> 'n Similarity list \<Rightarrow> 'n Similarity list"

datatype vector_error =
  Vectors_must_have_the_same_length

text \<open>\<open>contains(text)\<close>: \<open>this.entries.some(entry => entry.text === text)\<close>.\<close>

definition contains :: "'n VectorEntry list \<Rightarrow> string \<Rightarrow> bool" where
  "contains entries t = list_ex (\<lambda>entry. text_e entry = t) entries"

text \<open>\<open>store(text, embedding)\<close>: returns at once when the text is present, pushes otherwise.\<close>

definition store :: "'n VectorEntry list \<Rightarrow> string \<Rightarrow> 'n list \<Rightarrow> 'n VectorEntry list" where
  "store entries t emb =
     (if contains entries t then entries
      else entries @ [\<lparr>text_e = t, embedding = emb\<rparr>])"


text \<open>
  \<open>cosineSimilarity(vec1, vec2)\<close>: the length check comes first and throws; the three
  \<open>reduce\<close> calls are left folds from 0 (the first one reads \<open>vec2[i]\<close> at the index of
  \<open>val\<close>, in range once the lengths agree); every operation is the engine's.
\<close>

definition cosineSimilarity :: "'n numbers \<Rightarrow> 'n list \<Rightarrow> 'n list \<Rightarrow> vector_error + 'n" where
  "cosineSimilarity js vec1 vec2 =
     (if length vec1 \<noteq> length vec2 then Inl Vectors_must_have_the_same_length
      else
        let dotProduct =
              foldl (\<lambda>sum (val, w). num_add js sum (num_mul js val w)) (num_zero js)
                (zip vec1 vec2);
            magnitude1 =
              num_sqrt js (foldl (\<lambda>sum val. num_add js sum (num_mul js val val)) (num_zero js) vec1);
            magnitude2 =
              num_sqrt js (foldl (\<lambda>sum val. num_add js sum (num_mul js val val)) (num_zero js) vec2)
        in if num_is_zero js magnitude1 \<or> num_is_zero js magnitude2 then Inr (num_zero js)
           else Inr (num_div js dotProduct (num_mul js magnitude1 magnitude2)))"

text \<open>
  The \<open>for\<close> loop of \<open>get_most_similar\<close>: entries with the query's text are skipped,
  every other entry is scored and pushed; an exception of \<open>cosineSimilarity\<close> leaves the
  loop and the method.
\<close>

fun similarities_loop ::
  "'n numbers \<Rightarrow> 'n VectorEntry list \<Rightarrow> string \<Rightarrow> 'n list \<Rightarrow> 'n Similarity list
     \<Rightarrow> vector_error + 'n Similarity list"
where
  "similarities_loop js [] t emb similarities = Inr similarities"
| "similarities_loop js (entry # rest) t emb similarities =
     (if text_e entry = t then similarities_loop js rest t emb similarities
      else
        (case cosineSimilarity js (embedding entry) emb of
           Inl err \<Rightarrow> Inl err
         | Inr c \<Rightarrow>
             similarities_loop js rest t emb
               (similarities @ [\<lparr>text_s = text_e entry, similarity = c\<rparr>])))"

text \<open>The comparator: \<open>(a, b) => b.similarity - a.similarity\<close>.\<close>

definition compare_similarity :: "'n numbers \<Rightarrow> 'n Similarity \<Rightarrow> 'n Similarity \<Rightarrow> 'n" where
  "compare_similarity js a b = num_sub js (similarity b) (similarity a)"

text \<open>
  \<open>get_most_similar(text, embedding, max_results)\<close>: the early return on an empty
  store, the loop, \<open>similarities.sort(...)\<close> by the engine's sort, and
  \<open>similarities.slice(0, max_results)\<close>, which is \<open>take\<close>; \<open>max_results\<close> is a count
  (the callers pass 10, 1 and 3).
\<close>

definition get_most_similar ::
  "'n numbers \<Rightarrow> 'n array_sort \<Rightarrow> 'n VectorEntry list \<Rightarrow> string \<Rightarrow> 'n list \<Rightarrow> nat
     \<Rightarrow> vector_error + 'n Similarity list"
where
  "get_most_similar js array_sort entries t emb max_results =
     (if length entries = 0 then Inr []
      else
        (case similarities_loop js entries t emb [] of
           Inl err \<Rightarrow> Inl err
         | Inr similarities \<Rightarrow>
             Inr (take max_results (array_sort (compare_similarity js) similarities))))"

subsection \<open>What the specification and the language standard say\<close>

text \<open>
  The candidates of the ranking the specification describes: every entry whose text
  differs from the query's, with its score, in insertion order.
\<close>

definition scored :: "'n numbers \<Rightarrow> 'n VectorEntry list \<Rightarrow> string \<Rightarrow> 'n list \<Rightarrow> 'n Similarity list"
where
  "scored js entries t emb =
     concat (map (\<lambda>entry.
       if text_e entry = t then []
       else (case cosineSimilarity js (embedding entry) emb of
               Inl err \<Rightarrow> []
             | Inr c \<Rightarrow> [\<lparr>text_s = text_e entry, similarity = c\<rparr>])) entries)"

definition same_dimension :: "'n VectorEntry list \<Rightarrow> string \<Rightarrow> 'n list \<Rightarrow> bool" where
  "same_dimension entries t emb =
     list_all (\<lambda>entry. text_e entry = t \<or> length (embedding entry) = length emb) entries"


text \<open>
  A consistent comparison function for a set of values, in the words of the
  standard (ECMAScript, \<open>Array.prototype.sort\<close>): every value ties with itself, ties
  are symmetric and transitive, "before" is transitive and "after" is transitive.
  (That a call always returns the same value holds of every function here.)
  A comparator that meets a NaN score is not consistent: NaN ties with every score.
\<close>

definition consistent_on :: "('a \<Rightarrow> 'a \<Rightarrow> int) \<Rightarrow> 'a set \<Rightarrow> bool" where
  "consistent_on cf S \<longleftrightarrow>
     (\<forall>a\<in>S. cf a a = 0)
   \<and> (\<forall>a\<in>S. \<forall>b\<in>S. cf a b = 0 \<longrightarrow> cf b a = 0)
   \<and> (\<forall>a\<in>S. \<forall>b\<in>S. \<forall>c\<in>S. cf a b = 0 \<and> cf b c = 0 \<longrightarrow> cf a c = 0)
   \<and> (\<forall>a\<in>S. \<forall>b\<in>S. \<forall>c\<in>S. cf a b < 0 \<and> cf b c < 0 \<longrightarrow> cf a c < 0)
   \<and> (\<forall>a\<in>S. \<forall>b\<in>S. \<forall>c\<in>S. cf a b > 0 \<and> cf b c > 0 \<longrightarrow> cf a c > 0)"



subsection \<open>An engine to run examples on\<close>

text \<open>
  Numbers without rounding, and the insertion sort that puts an element before the
  first one it does not come after. They stand for the engine where an example
  is evaluated; no theorem about the code is restricted to them.
\<close>

definition exact_numbers :: "real numbers" where
  "exact_numbers =
     \<lparr>num_zero = 0, num_add = (+), num_sub = (-), num_mul = (*), num_div = (/),
      num_sqrt = sqrt, num_is_zero = (\<lambda>x. x = 0),
      num_sign = (\<lambda>x. if x < 0 then - 1 else if x = 0 then 0 else 1)\<rparr>"

fun insert_by :: "('a \<Rightarrow> 'a \<Rightarrow> int) \<Rightarrow> 'a \<Rightarrow> 'a list \<Rightarrow> 'a list" where
  "insert_by cf x [] = [x]"
| "insert_by cf x (y # ys) =
     (if cf x y \<le> 0 then x # y # ys else y # insert_by cf x ys)"

definition insertion_sort :: "'n numbers \<Rightarrow> 'n array_sort" where
  "insertion_sort js comparefn xs =
     foldr (insert_by (\<lambda>a b. num_sign js (comparefn a b))) xs []"

section \<open>Loading the persisted embedding store (VectorStore.load)\<close>

text \<open>
  \<open>load\<close> works on what \<open>JSON.parse\<close> returns, before any TypeScript type applies, so
  the file's content is a JSON value, and the array \<open>this.entries\<close> holds JSON values
  too: on success it is assigned \<open>parsed.entries\<close> itself.
  In \<open>JObj\<close> the list holds the object's own properties; \<open>JNum\<close> holds the value of
  the number (JSON text cannot denote NaN).
\<close>

datatype json =
  JNull
| JBool bool
| JNum real
| JStr string
| JArr "json list"
| JObj "(string \<times> json) list"

text \<open>
  What reading a property yields: \<open>undefined\<close>, a built-in function, or a JSON value.
\<close>

datatype js_value = Undefined | Function_value | Json json

text \<open>
  \<open>v.k\<close> for the three keys \<open>load\<close> reads (\<open>entries\<close>, \<open>text\<close>, \<open>embedding\<close>).
  Reading a property of \<open>null\<close> throws a TypeError (\<open>None\<close> here). An object gives
  its own property or \<open>undefined\<close> (none of the three keys is on \<open>Object.prototype\<close>).
  An array inherits the method \<open>Array.prototype.entries\<close> and has neither \<open>text\<close>
  nor \<open>embedding\<close>. Booleans, numbers and strings give \<open>undefined\<close>.
\<close>

fun get_property :: "json \<Rightarrow> string \<Rightarrow> js_value option" where
  "get_property JNull k = None"
| "get_property (JObj props) k =
     (case map_of props k of None \<Rightarrow> Some Undefined | Some v \<Rightarrow> Some (Json v))"
| "get_property (JArr xs) k =
     (if k = ''entries'' then Some Function_value else Some Undefined)"
| "get_property (JBool b) k = Some Undefined"
| "get_property (JNum r) k = Some Undefined"
| "get_property (JStr s) k = Some Undefined"

text \<open>
  JavaScript truthiness, as \<open>!x\<close> reads it: \<open>undefined\<close>, \<open>null\<close>, \<open>false\<close>, \<open>0\<close>
  and the empty string are falsy; everything else is truthy.
\<close>

fun truthy :: "js_value \<Rightarrow> bool" where
  "truthy Undefined = False"
| "truthy Function_value = True"
| "truthy (Json JNull) = False"
| "truthy (Json (JBool b)) = b"
| "truthy (Json (JNum r)) = (r \<noteq> 0)"
| "truthy (Json (JStr s)) = (s \<noteq> [])"
| "truthy (Json (JArr xs)) = True"
| "truthy (Json (JObj props)) = True"

fun isArray :: "js_value \<Rightarrow> bool" where
  "isArray (Json (JArr xs)) = True"
| "isArray v = False"

text \<open>
  What \<open>fs.readFile\<close> followed by \<open>JSON.parse\<close> comes to: the read is rejected with
  code \<open>ENOENT\<close> (no such file), or with another error; or the file is read and
  \<open>JSON.parse\<close> throws a SyntaxError, or returns a value.
\<close>

datatype file_content =
  ENOENT
| Read_rejected string
| Not_JSON
| Parsed json

text \<open>
  Every error but \<open>ENOENT\<close> is rethrown as
  \<open>Failed to load vector store: <message>\<close>; the cause tells the messages apart.
\<close>

datatype load_cause =
  Read_error string
| JSON_syntax_error
| Type_error
| Invalid_vector_store_file_format
| Invalid_entry_format_in_vector_store_file

datatype load_error = Failed_to_load_vector_store load_cause

text \<open>
  The validation loop: \<open>if (!entry.text || !Array.isArray(entry.embedding)) throw\<close>,
  for each entry in order. \<open>None\<close>: every entry passed.
\<close>

fun validate_entries :: "json list \<Rightarrow> load_cause option" where
  "validate_entries [] = None"
| "validate_entries (entry # rest) =
     (case get_property entry ''text'' of
        None \<Rightarrow> Some Type_error
      | Some label \<Rightarrow>
          if \<not> truthy label then Some Invalid_entry_format_in_vector_store_file
          else
            (case get_property entry ''embedding'' of
               None \<Rightarrow> Some Type_error
             | Some emb \<Rightarrow>
                 if \<not> isArray emb then Some Invalid_entry_format_in_vector_store_file
                 else validate_entries rest))"

text \<open>
  \<open>load(filepath)\<close>, from the entries before the call and the file's content, to the
  error thrown (\<open>None\<close>: the promise resolves) and the entries after the call.
  \<open>this.entries\<close> is assigned in two places only: after the validation loop, and in
  the \<open>ENOENT\<close> branch of the handler.
\<close>

definition load :: "json list \<Rightarrow> file_content \<Rightarrow> load_error option \<times> json list" where
  "load entries file =
     (case file of
        ENOENT \<Rightarrow> (None, [])
      | Read_rejected message \<Rightarrow>
          (Some (Failed_to_load_vector_store (Read_error message)), entries)
      | Not_JSON \<Rightarrow> (Some (Failed_to_load_vector_store JSON_syntax_error), entries)
      | Parsed parsed \<Rightarrow>
          (case get_property parsed ''entries'' of
             None \<Rightarrow> (Some (Failed_to_load_vector_store Type_error), entries)
           | Some es \<Rightarrow>
               if \<not> truthy es \<or> \<not> isArray es
               then (Some (Failed_to_load_vector_store Invalid_vector_store_file_format), entries)
               else
                 (case es of
                    Json (JArr parsed_entries) \<Rightarrow>
                      (case validate_entries parsed_entries of
                         Some cause \<Rightarrow> (Some (Failed_to_load_vector_store cause), entries)
                       | None \<Rightarrow> (None, parsed_entries))
                  | _ \<Rightarrow>
                      (Some (Failed_to_load_vector_store Invalid_vector_store_file_format),
                       entries))))"

text \<open>
  The conditions the specification names. The content has an \<open>entries\<close> array. An
  entry has a non-empty label: the label of the data model is a string, so this is a
  \<open>text\<close> that is a string and not the empty one. An entry has an array-shaped
  embedding.
\<close>

definition entries_array :: "json \<Rightarrow> json list option" where
  "entries_array parsed =
     (case get_property parsed ''entries'' of
        Some (Json (JArr es)) \<Rightarrow> Some es
      | _ \<Rightarrow> None)"

definition has_nonempty_label :: "json \<Rightarrow> bool" where
  "has_nonempty_label entry =
     (case get_property entry ''text'' of
        Some (Json (JStr s)) \<Rightarrow> s \<noteq> []
      | _ \<Rightarrow> False)"

definition has_embedding_array :: "json \<Rightarrow> bool" where
  "has_embedding_array entry =
     (case get_property entry ''embedding'' of None \<Rightarrow> False | Some emb \<Rightarrow> isArray emb)"

text \<open>
  What the code tests of the label, \<open>!entry.text\<close> being false: the entry is not
  \<open>null\<close> and its \<open>text\<close> is truthy, a string or not. And the entries the validation
  loop lets pass.
\<close>

definition text_is_truthy :: "json \<Rightarrow> bool" where
  "text_is_truthy entry =
     (case get_property entry ''text'' of None \<Rightarrow> False | Some label \<Rightarrow> truthy label)"

definition passes_validation :: "json \<Rightarrow> bool" where
  "passes_validation entry \<longleftrightarrow> text_is_truthy entry \<and> has_embedding_array entry"

section \<open>Oracle calls with their retry loop (prompts.ts)\<close>

text \<open>
  One pass through the \<open>try\<close> block: \<open>openai.chat.completions.create\<close> followed by
  \<open>JSON.parse(content || '[]')\<close>. Either something other than a SyntaxError is thrown
  (the request is rejected, the response has no choice), or \<open>JSON.parse\<close> throws a
  SyntaxError, or it returns the value the text denotes; the value is returned as it
  is, with no check of its shape. An empty or null content is replaced by a default
  text that is valid JSON (\<open>[]\<close>, or an object in \<open>extractRDFTriples\<close>).
\<close>

datatype 'a attempt =
  Throws string
| Invalid_JSON
| Valid_JSON 'a

datatype oracle_error =
  Rethrown string
| Failed_to_parse_JSON_response_after_3_attempts
| Failed_after_loop string

text \<open>
  The loop shared, copy for copy, by \<open>chooseNextGraphNode\<close>, \<open>extractEntities\<close>
  and \<open>extractRDFTriples\<close>, the three calls \<open>index.ts\<close> imports whose reply is parsed:
  \<^verbatim>\<open>
  let attempts = 0;
  while (attempts < 3) {
    try { ...; return JSON.parse(content || '[]'); }
    catch (error) {
      if (error instanceof SyntaxError) {
        attempts++;
        if (attempts === 3) throw new Error('Failed to parse JSON response after 3 attempts');
      } else throw error;
    }
  }
  throw new Error(final);
  \<close>
  \<open>responses i\<close> is the outcome of the pass made when \<open>attempts\<close> is \<open>i\<close>. The result
  carries the number of requests sent to the oracle beside the value or the error.
\<close>

function retry_loop ::
  "string \<Rightarrow> (nat \<Rightarrow> 'a attempt) \<Rightarrow> nat \<Rightarrow> nat \<times> (oracle_error + 'a)"
where
  "retry_loop final responses attempts =
     (if attempts < 3 then
        (case responses attempts of
           Valid_JSON entities \<Rightarrow> (attempts + 1, Inr entities)
         | Throws error \<Rightarrow> (attempts + 1, Inl (Rethrown error))
         | Invalid_JSON \<Rightarrow>
             (if attempts + 1 = 3
              then (attempts + 1, Inl Failed_to_parse_JSON_response_after_3_attempts)
              else retry_loop final responses (attempts + 1)))
      else (attempts, Inl (Failed_after_loop final)))"
  by pat_completeness auto
termination
  by (relation "measure (\<lambda>(final, responses, attempts). 3 - attempts)") auto

text \<open>
  The three callers. The oracle is a parameter: from the prompt's variable part to the
  outcomes of the successive requests made with that prompt.
\<close>

definition chooseNextGraphNode ::
  "('p \<Rightarrow> nat \<Rightarrow> 'a attempt) \<Rightarrow> 'p \<Rightarrow> nat \<times> (oracle_error + 'a)" where
  "chooseNextGraphNode oracle nodes = retry_loop ''Failed to extract entities'' (oracle nodes) 0"

definition extractEntities ::
  "('p \<Rightarrow> nat \<Rightarrow> 'a attempt) \<Rightarrow> 'p \<Rightarrow> nat \<times> (oracle_error + 'a)" where
  "extractEntities oracle txt = retry_loop ''Failed to extract entities'' (oracle txt) 0"

definition extractRDFTriples ::
  "('p \<Rightarrow> nat \<Rightarrow> 'a attempt) \<Rightarrow> 'p \<Rightarrow> nat \<times> (oracle_error + 'a)" where
  "extractRDFTriples oracle txt = retry_loop ''Failed to extract RDF triples'' (oracle txt) 0"

text \<open>
  An oracle that answers the requests of a call from a script, whatever the prompt;
  past the script the request is rejected.
\<close>

definition scripted :: "'a attempt list \<Rightarrow> 'p \<Rightarrow> nat \<Rightarrow> 'a attempt" where
  "scripted script prompt i =
     (if i < length script then script ! i else Throws ''request rejected'')"

text \<open>
  The structure \<open>extractEntities\<close> asks the oracle for: a JSON array of strings.
\<close>

fun is_string_array :: "json \<Rightarrow> bool" where
  "is_string_array (JArr xs) = list_all (\<lambda>x. case x of JStr s \<Rightarrow> True | _ \<Rightarrow> False) xs"
| "is_string_array v = False"

section \<open>The fact graph and the multi-hop traversal (queryPDF)\<close>

text \<open>
  A quad as the traversal reads it: the \<open>.value\<close> of its subject, predicate, object
  and graph terms. Every quad of the store is built with \<open>namedNode\<close> for subject,
  predicate and graph and \<open>literal(_, 'en')\<close> for the object, so a term is its value.
  The store \<open>rdfStore\<close> is an \<open>N3.Store\<close> of the n3 library; the traversal only reads
  it, through \<open>match\<close>. It is modelled by the list of the quads it holds, in the
  order \<open>match\<close> yields them; nothing is assumed of that list.
\<close>

record Quad =
  subject_t :: string
  predicate_t :: string
  object_t :: string
  graph_t :: string

text \<open>\<open>GraphNode\<close> of prompts.ts; its field \<open>value\<close> is written \<open>value_n\<close>.\<close>

record GraphNode =
  subject :: string
  predicate :: string
  value_n :: string
  chunk :: string

text \<open>\<open>rdfStore.match(namedNode(s), null, null)\<close> and
  \<open>rdfStore.match(null, null, literal(v, "en"))\<close>.\<close>

definition match_subject :: "Quad list \<Rightarrow> string \<Rightarrow> Quad list" where
  "match_subject rdfStore s = filter (\<lambda>q. subject_t q = s) rdfStore"

definition match_object :: "Quad list \<Rightarrow> string \<Rightarrow> Quad list" where
  "match_object rdfStore v = filter (\<lambda>q. object_t q = v) rdfStore"

text \<open>The object literal pushed for a quad \<open>n\<close>.\<close>

definition node_of :: "Quad \<Rightarrow> GraphNode" where
  "node_of n =
     \<lparr>subject = subject_t n, predicate = predicate_t n, value_n = object_t n, chunk = graph_t n\<rparr>"

text \<open>
  SEED: for each similarity, the quads whose subject is its text, pushed on
  \<open>allNodes\<close> in order.
\<close>

definition seed_nodes :: "Quad list \<Rightarrow> 'n Similarity list \<Rightarrow> GraphNode list" where
  "seed_nodes rdfStore similarities =
     concat (map (\<lambda>s. map node_of (match_subject rdfStore (text_s s))) similarities)"

text \<open>
  The innermost loop, over \<open>queryNodes\<close>: a quad is pushed on \<open>tmp\<close> and on
  \<open>visitedNodes\<close> unless \<open>visitedNodes.some(v => ...)\<close> finds a node equal to it in
  all four fields. \<open>visitedNodes\<close> grows inside the loop, so a later copy of a quad
  pushed earlier in the same loop is found.
\<close>

fun visit_loop ::
  "Quad list \<Rightarrow> GraphNode list \<Rightarrow> GraphNode list \<Rightarrow> GraphNode list \<times> GraphNode list"
where
  "visit_loop [] tmp visitedNodes = (tmp, visitedNodes)"
| "visit_loop (n # queryNodes) tmp visitedNodes =
     (if \<not> list_ex (\<lambda>v. subject v = subject_t n \<and> predicate v = predicate_t n
                          \<and> value_n v = object_t n \<and> chunk v = graph_t n) visitedNodes
      then visit_loop queryNodes (tmp @ [node_of n]) (visitedNodes @ [node_of n])
      else visit_loop queryNodes tmp visitedNodes)"

text \<open>
  The two queries of one selected node, concatenated:
  \<open>[...queryNodes1, ...queryNodes2]\<close>.
\<close>

definition queryNodes_of :: "Quad list \<Rightarrow> GraphNode \<Rightarrow> Quad list" where
  "queryNodes_of rdfStore node =
     match_object rdfStore (value_n node) @ match_subject rdfStore (subject node)"

text \<open>
  The loop over \<open>nextNodes\<close>: each node's new facts are appended to \<open>allNodes\<close>
  (\<open>allNodes.push(...tmp)\<close>); \<open>visitedNodes\<close> is shared by all the nodes of the hop.
\<close>

fun follow_nodes ::
  "Quad list \<Rightarrow> GraphNode list \<Rightarrow> GraphNode list \<Rightarrow> GraphNode list
     \<Rightarrow> GraphNode list \<times> GraphNode list"
where
  "follow_nodes rdfStore [] allNodes visitedNodes = (allNodes, visitedNodes)"
| "follow_nodes rdfStore (node # nextNodes) allNodes visitedNodes =
     (case visit_loop (queryNodes_of rdfStore node) [] visitedNodes of
        (tmp, visitedNodes') \<Rightarrow>
          follow_nodes rdfStore nextNodes (allNodes @ tmp) visitedNodes')"

text \<open>
  The variables of the \<open>while (true)\<close> loop. The oracle of a run maps the hop and
  the frontier sent to the outcomes of the successive requests
  \<open>chooseNextGraphNode\<close> makes; its parsed reply is a \<open>GraphNode[]\<close>, as the function's
  return type declares.
\<close>

record qstate =
  depth :: nat
  allNodes :: "GraphNode list"
  visitedNodes :: "GraphNode list"

type_synonym node_oracle = "nat \<Rightarrow> GraphNode list \<Rightarrow> nat \<Rightarrow> GraphNode list attempt"

text \<open>
  The loop itself. It leaves by one of its two \<open>break\<close>s, or by the exception of
  \<open>chooseNextGraphNode\<close>, which nothing in \<open>queryPDF\<close> catches. The first component
  of the result is the number of hops begun, that is, of calls to the oracle client:
  \<open>depth\<close> at a \<open>break\<close>, one more when the call of the current hop throws.
\<close>

function queryPDF_loop :: "node_oracle \<Rightarrow> Quad list \<Rightarrow> qstate \<Rightarrow> nat \<times> (oracle_error + qstate)"
where
  "queryPDF_loop oracle rdfStore s =
     (if depth s > 2 then (depth s, Inr s)
      else if length (allNodes s) = 0 then (depth s, Inr s)
      else
        (case snd (chooseNextGraphNode (oracle (depth s)) (allNodes s)) of
           Inl err \<Rightarrow> (depth s + 1, Inl err)
         | Inr nextNodes \<Rightarrow>
             (case follow_nodes rdfStore nextNodes [] (visitedNodes s) of
                (allNodes', visitedNodes') \<Rightarrow>
                  queryPDF_loop oracle rdfStore
                    \<lparr>depth = depth s + 1, allNodes = allNodes',
                     visitedNodes = visitedNodes'\<rparr>)))"
  by pat_completeness auto
termination
  by (relation "measure (\<lambda>(oracle, rdfStore, s). 3 - depth s)") auto

declare queryPDF_loop.simps [simp del]

text \<open>The state \<open>queryPDF\<close> enters the loop with.\<close>

definition initial :: "GraphNode list \<Rightarrow> qstate" where
  "initial seed = \<lparr>depth = 0, allNodes = seed, visitedNodes = []\<rparr>"

text \<open>
  \<open>'a_b_c'.split('_')\<close> is \<open>['a', 'b', 'c']\<close>; a string without the separator is
  returned whole, in a one-element array. \<open>xs[1]\<close> is \<open>undefined\<close> (\<open>None\<close>) on an
  array shorter than two.
\<close>

fun split :: "char \<Rightarrow> string \<Rightarrow> string list" where
  "split sep [] = [[]]"
| "split sep (c # cs) =
     (if c = sep then [] # split sep cs
      else (case split sep cs of
              [] \<Rightarrow> [[c]]
            | w # ws \<Rightarrow> (c # w) # ws))"

fun second :: "'a list \<Rightarrow> 'a option" where
  "second (x # y # zs) = Some y"
| "second xs = None"

text \<open>
  \<open>const chunkIndices = visitedNodes.map(n => n.chunk.split('_')[1])\<close>: what the
  traversal hands on. \<open>qaInput\<close> is \<open>chunkIndices.map(...)\<close>, one element for each
  element, through \<open>parseInt\<close> and the chunk array.
\<close>

definition chunk_index :: "GraphNode \<Rightarrow> string option" where
  "chunk_index n = second (split CHR ''_'' (chunk n))"

definition chunkIndices :: "GraphNode list \<Rightarrow> string option list" where
  "chunkIndices visited = map chunk_index visited"

definition queryPDF_chunkIndices ::
  "node_oracle \<Rightarrow> Quad list \<Rightarrow> GraphNode list \<Rightarrow> oracle_error + string option list" where
  "queryPDF_chunkIndices oracle rdfStore seed =
     (case snd (queryPDF_loop oracle rdfStore (initial seed)) of
        Inl err \<Rightarrow> Inl err
      | Inr s \<Rightarrow> Inr (chunkIndices (visitedNodes s)))"

text \<open>An oracle that selects the whole frontier at the first request of every hop.\<close>

definition select_all :: node_oracle where
  "select_all hop nodes i = Valid_JSON nodes"

section \<open>Packing the context (llm_do_question_answer)\<close>

text \<open>
  \<open>QAInput\<close> of prompts.ts, with \<open>chunk\<close> written \<open>chunk_q\<close> and \<open>index\<close> written
  \<open>index_q\<close>. A template literal prints an integer index in decimal.
\<close>

record QAInput =
  chunk_q :: string
  index_q :: int

fun string_of_nat :: "nat \<Rightarrow> string" where
  "string_of_nat n =
     (if n < 10 then [''0123456789'' ! n]
      else string_of_nat (n div 10) @ [''0123456789'' ! (n mod 10)])"

definition string_of_int :: "int \<Rightarrow> string" where
  "string_of_int i =
     (if i < 0 then CHR ''-'' # string_of_nat (nat (- i)) else string_of_nat (nat i))"

text \<open>The text added for one chunk: \<open>`[Chunk ${analysis.index}]:\n${chunk}\n\n`\<close>.\<close>

definition block :: "QAInput \<Rightarrow> string" where
  "block analysis =
     ''[Chunk '' @ string_of_int (index_q analysis) @ '']:'' @ [CHR 0x0A]
       @ chunk_q analysis @ [CHR 0x0A, CHR 0x0A]"

text \<open>
  The loop that builds \<open>context\<close> and \<open>chunkIndices\<close> (here \<open>chunkIndices'\<close>); the first chunk that fails the
  test ends it (\<open>break\<close>).
\<close>

fun build_context :: "nat \<Rightarrow> QAInput list \<Rightarrow> string \<Rightarrow> int list \<Rightarrow> string \<times> int list" where
  "build_context max_characters [] context chunkIndices' = (context, chunkIndices')"
| "build_context max_characters (analysis # rest) context chunkIndices' =
     (if length context + length (chunk_q analysis) \<le> max_characters
      then build_context max_characters rest
             (context @ block analysis) (chunkIndices' @ [index_q analysis])
      else (context, chunkIndices'))"

definition llm_do_question_answer_context :: "QAInput list \<Rightarrow> nat \<Rightarrow> string \<times> int list" where
  "llm_do_question_answer_context qaInput max_characters = build_context max_characters qaInput [] []"

text \<open>
  How many chunks of the list, from its start, the loop takes: it stops at the first
  chunk whose text does not fit beside the context built so far.
\<close>

fun admitted :: "nat \<Rightarrow> nat \<Rightarrow> QAInput list \<Rightarrow> nat" where
  "admitted max_characters used [] = 0"
| "admitted max_characters used (analysis # rest) =
     (if used + length (chunk_q analysis) \<le> max_characters
      then Suc (admitted max_characters (used + length (block analysis)) rest)
      else 0)"

section \<open>Properties of the embedding store\<close>



lemma cosineSimilarity_Inr_iff:
  "(\<exists>c. cosineSimilarity js v w = Inr c) \<longleftrightarrow> length v = length w"
  by (auto simp: cosineSimilarity_def Let_def)

lemma similarities_loop_ok:
  "same_dimension entries t emb \<Longrightarrow>
   similarities_loop js entries t emb acc = Inr (acc @ scored js entries t emb)"
proof (induction entries arbitrary: acc)
  case Nil
  then show ?case by (simp add: scored_def)
next
  case (Cons entry rest)
  from Cons.prems have rest: "same_dimension rest t emb"
    and here: "text_e entry = t \<or> length (embedding entry) = length emb"
    by (simp_all add: same_dimension_def)
  show ?case
  proof (cases "text_e entry = t")
    case True
    with Cons.IH [OF rest] show ?thesis by (simp add: scored_def)
  next
    case False
    with here have "length (embedding entry) = length emb" by simp
    then obtain c where c: "cosineSimilarity js (embedding entry) emb = Inr c"
      using cosineSimilarity_Inr_iff [of js "embedding entry" emb] by auto
    with False Cons.IH [OF rest] show ?thesis by (simp add: scored_def)
  qed
qed

lemma similarities_loop_fails:
  "\<not> same_dimension entries t emb \<Longrightarrow>
   similarities_loop js entries t emb acc = Inl Vectors_must_have_the_same_length"
proof (induction entries arbitrary: acc)
  case Nil
  then show ?case by (simp add: same_dimension_def)
next
  case (Cons entry rest)
  show ?case
  proof (cases "text_e entry = t")
    case True
    with Cons.prems have "\<not> same_dimension rest t emb" by (simp add: same_dimension_def)
    with True Cons.IH show ?thesis by simp
  next
    case False
    show ?thesis
    proof (cases "cosineSimilarity js (embedding entry) emb")
      case (Inl err)
      with False show ?thesis by (cases err) simp
    next
      case (Inr c)
      then have "length (embedding entry) = length emb"
        using cosineSimilarity_Inr_iff [of js "embedding entry" emb] by auto
      with Cons.prems have "\<not> same_dimension rest t emb" by (simp add: same_dimension_def)
      with False Inr Cons.IH show ?thesis by simp
    qed
  qed
qed



lemma same_dimension_iff:
  "same_dimension entries t emb \<longleftrightarrow>
   (\<forall>entry\<in>set entries. text_e entry \<noteq> t \<longrightarrow> length (embedding entry) = length emb)"
  by (auto simp: same_dimension_def list_all_iff)

lemma get_most_similar_empty: "get_most_similar js array_sort [] t emb k = Inr []"
  by (simp add: get_most_similar_def)

lemma get_most_similar_ok:
  assumes "entries \<noteq> []" and "same_dimension entries t emb"
  shows "get_most_similar js array_sort entries t emb k
     = Inr (take k (array_sort (compare_similarity js) (scored js entries t emb)))"
  using similarities_loop_ok [OF assms(2), of js "[]"] assms(1)
  by (simp add: get_most_similar_def)

lemma get_most_similar_fails:
  "\<not> same_dimension entries t emb \<Longrightarrow>
   get_most_similar js array_sort entries t emb k = Inl Vectors_must_have_the_same_length"
proof (cases "entries = []")
  case True
  assume "\<not> same_dimension entries t emb"
  with True show ?thesis by (simp add: same_dimension_def)
next
  case False
  assume "\<not> same_dimension entries t emb"
  from similarities_loop_fails [OF this, of js "[]"] False show ?thesis
    by (simp add: get_most_similar_def)
qed

subsection \<open>The insertion sort meets the contract of the sort\<close>


lemma consistent_flip':
  assumes "consistent_on cf S" "a \<in> S" "b \<in> S" "cf a b < 0"
  shows "cf b a > 0"
proof (rule ccontr)
  assume "\<not> cf b a > 0"
  then consider "cf b a = 0" | "cf b a < 0" by linarith
  then show False
  proof cases
    case 1
    with assms have "cf a b = 0" unfolding consistent_on_def by blast
    with assms(4) show False by simp
  next
    case 2
    with assms have "cf a a < 0" unfolding consistent_on_def by blast
    moreover from assms have "cf a a = 0" unfolding consistent_on_def by blast
    ultimately show False by simp
  qed
qed









subsection \<open>The claims\<close>



text \<open>
  C10. \<open>get_most_similar\<close> throws the error of \<open>cosineSimilarity\<close> whenever some entry
  whose text differs from the query's has an embedding of another length than the
  query embedding; it returns a ranking if and only if every such entry has the
  query embedding's length. This holds whatever the engine's arithmetic and sort.
\<close>

theorem get_most_similar_dimension_mismatch:
  "((\<exists>entry\<in>set entries. text_e entry \<noteq> t \<and> length (embedding entry) \<noteq> length emb)
      \<longrightarrow> get_most_similar js array_sort entries t emb k
            = Inl Vectors_must_have_the_same_length)
   \<and> ((\<exists>ranked. get_most_similar js array_sort entries t emb k = Inr ranked)
      \<longleftrightarrow> (\<forall>entry\<in>set entries. text_e entry \<noteq> t \<longrightarrow> length (embedding entry) = length emb))"
proof (cases "same_dimension entries t emb")
  case True
  show ?thesis
  proof (cases "entries = []")
    case True
    then show ?thesis by (simp add: get_most_similar_empty)
  next
    case False
    from get_most_similar_ok [OF False True, of js array_sort k] True show ?thesis
      by (auto simp: same_dimension_iff)
  qed
next
  case False
  then show ?thesis
    using get_most_similar_fails [OF False, of js array_sort k]
    by (auto simp: same_dimension_iff)
qed

theorem get_most_similar_dimension_mismatch_witness:
  "get_most_similar exact_numbers (insertion_sort exact_numbers)
     [\<lparr>text_e = ''India'', embedding = [1, 0]\<rparr>, \<lparr>text_e = ''Hindi'', embedding = [1, 0, 0]\<rparr>]
     ''Where is Radio City?'' [0, 1] 10
     = Inl Vectors_must_have_the_same_length
   \<and> (\<exists>ranked. get_most_similar exact_numbers (insertion_sort exact_numbers)
         [\<lparr>text_e = ''India'', embedding = [1, 0]\<rparr>, \<lparr>text_e = ''Hindi'', embedding = [1, 0, 0]\<rparr>]
         ''Hindi'' [0, 1] 10 = Inr ranked)"
  using get_most_similar_dimension_mismatch
      [of "[\<lparr>text_e = ''India'', embedding = [1, 0]\<rparr>, \<lparr>text_e = ''Hindi'', embedding = [1, 0, 0]\<rparr>]"
          "''Where is Radio City?''" "[0, 1]" exact_numbers "insertion_sort exact_numbers" 10]
    get_most_similar_dimension_mismatch
      [of "[\<lparr>text_e = ''India'', embedding = [1, 0]\<rparr>, \<lparr>text_e = ''Hindi'', embedding = [1, 0, 0]\<rparr>]"
          "''Hindi''" "[0, 1]" exact_numbers "insertion_sort exact_numbers" 10]
  by simp




section \<open>Properties of load\<close>

lemma isArray_iff: "isArray v \<longleftrightarrow> (\<exists>xs. v = Json (JArr xs))"
  by (cases v rule: isArray.cases) simp_all

lemma entries_array_Some:
  "entries_array parsed = Some es \<longleftrightarrow> get_property parsed ''entries'' = Some (Json (JArr es))"
  by (auto simp: entries_array_def split: option.splits js_value.splits json.splits)

lemma get_property_None: "get_property v k = None \<longleftrightarrow> v = JNull"
  by (cases v) (auto split: option.splits)

lemma validate_entries_find:
  "validate_entries es =
     (case find (\<lambda>entry. \<not> passes_validation entry) es of
        None \<Rightarrow> None
      | Some bad \<Rightarrow>
          Some (if bad = JNull then Type_error
                else Invalid_entry_format_in_vector_store_file))"
proof (induction es)
  case Nil
  then show ?case by simp
next
  case (Cons entry es)
  show ?case
  proof (cases "entry = JNull")
    case True
    then show ?thesis by (simp add: passes_validation_def text_is_truthy_def)
  next
    case False
    then obtain label emb where props:
      "get_property entry ''text'' = Some label" "get_property entry ''embedding'' = Some emb"
      using get_property_None [of entry] by (metis not_Some_eq)
    with False Cons.IH show ?thesis
      by (simp add: passes_validation_def text_is_truthy_def has_embedding_array_def)
  qed
qed

lemma load_no_entries_array:
  assumes "entries_array parsed = None"
  shows "load entries (Parsed parsed) =
     (Some (Failed_to_load_vector_store
        (if parsed = JNull then Type_error else Invalid_vector_store_file_format)), entries)"
proof (cases "get_property parsed ''entries''")
  case None
  then have "parsed = JNull" by (simp add: get_property_None)
  with None show ?thesis by (simp add: load_def)
next
  case (Some v)
  then have nn: "parsed \<noteq> JNull" by auto
  from Some assms have "\<not> isArray v"
    by (auto simp: isArray_iff entries_array_def)
  with Some nn show ?thesis by (simp add: load_def)
qed

lemma load_entries_array:
  assumes "entries_array parsed = Some es"
  shows "load entries (Parsed parsed) =
     (case validate_entries es of
        Some cause \<Rightarrow> (Some (Failed_to_load_vector_store cause), entries)
      | None \<Rightarrow> (None, es))"
  using assms by (simp add: entries_array_Some load_def)

lemma find_bad_entry:
  "(\<exists>bad. find (\<lambda>entry. \<not> passes_validation entry) es = Some bad)
   \<longleftrightarrow> (\<exists>entry\<in>set es. \<not> text_is_truthy entry \<or> \<not> has_embedding_array entry)"
  by (induction es) (auto simp: passes_validation_def)

lemma nonempty_label_is_truthy: "has_nonempty_label entry \<Longrightarrow> text_is_truthy entry"
  by (auto simp: has_nonempty_label_def text_is_truthy_def
        split: option.splits js_value.splits json.splits)

text \<open>
  C7, as the code has it. Loading is all-or-nothing. When the file is missing the
  load succeeds and the store is empty afterwards. When the file cannot be read, or
  is not JSON, or holds JSON without an \<open>entries\<close> array, the load fails and the
  entries are those from before the call. When some entry is \<open>null\<close>, or has a
  \<open>text\<close> that is missing or falsy, or an embedding that is not an array, the load
  fails with the error of the first such entry and the entries are those from
  before the call. When every entry has a truthy \<open>text\<close> and an array-shaped
  embedding, the entries become the file's. Whatever the content, a load that fails
  leaves the entries as they were. A non-empty string is a truthy \<open>text\<close>; a
  missing or empty \<open>text\<close> is not.
\<close>

theorem load_all_or_nothing:
  "load entries ENOENT = (None, [])
   \<and> load entries (Read_rejected message)
       = (Some (Failed_to_load_vector_store (Read_error message)), entries)
   \<and> load entries Not_JSON = (Some (Failed_to_load_vector_store JSON_syntax_error), entries)
   \<and> (entries_array parsed = None \<longrightarrow>
        load entries (Parsed parsed)
          = (Some (Failed_to_load_vector_store
               (if parsed = JNull then Type_error else Invalid_vector_store_file_format)),
             entries))
   \<and> (\<forall>es. entries_array parsed = Some es
          \<and> (\<exists>entry\<in>set es. \<not> text_is_truthy entry \<or> \<not> has_embedding_array entry) \<longrightarrow>
        (\<exists>bad. find (\<lambda>entry. \<not> passes_validation entry) es = Some bad
           \<and> load entries (Parsed parsed)
               = (Some (Failed_to_load_vector_store
                    (if bad = JNull then Type_error
                     else Invalid_entry_format_in_vector_store_file)),
                  entries)))
   \<and> (\<forall>es. entries_array parsed = Some es
          \<and> (\<forall>entry\<in>set es. text_is_truthy entry \<and> has_embedding_array entry) \<longrightarrow>
        load entries (Parsed parsed) = (None, es))
   \<and> (fst (load entries content) \<noteq> None \<longrightarrow> snd (load entries content) = entries)
   \<and> (has_nonempty_label entry \<longrightarrow> text_is_truthy entry)
   \<and> (get_property entry ''text'' = Some Undefined
        \<or> get_property entry ''text'' = Some (Json (JStr [])) \<longrightarrow> \<not> text_is_truthy entry)"
proof (intro conjI allI impI)
  show "load entries ENOENT = (None, [])"
    by (simp add: load_def)
next
  show "load entries (Read_rejected message)
      = (Some (Failed_to_load_vector_store (Read_error message)), entries)"
    by (simp add: load_def)
next
  show "load entries Not_JSON = (Some (Failed_to_load_vector_store JSON_syntax_error), entries)"
    by (simp add: load_def)
next
  assume "entries_array parsed = None"
  then show "load entries (Parsed parsed)
      = (Some (Failed_to_load_vector_store
           (if parsed = JNull then Type_error else Invalid_vector_store_file_format)),
         entries)"
    by (rule load_no_entries_array)
next
  fix es
  assume a: "entries_array parsed = Some es
    \<and> (\<exists>entry\<in>set es. \<not> text_is_truthy entry \<or> \<not> has_embedding_array entry)"
  then obtain bad where bad: "find (\<lambda>entry. \<not> passes_validation entry) es = Some bad"
    using find_bad_entry [of es] by blast
  from a bad have "load entries (Parsed parsed)
      = (Some (Failed_to_load_vector_store
           (if bad = JNull then Type_error
            else Invalid_entry_format_in_vector_store_file)), entries)"
    by (simp add: load_entries_array validate_entries_find)
  with bad
  show "\<exists>bad. find (\<lambda>entry. \<not> passes_validation entry) es = Some bad
     \<and> load entries (Parsed parsed)
         = (Some (Failed_to_load_vector_store
              (if bad = JNull then Type_error
               else Invalid_entry_format_in_vector_store_file)), entries)"
    by blast
next
  fix es
  assume a: "entries_array parsed = Some es
    \<and> (\<forall>entry\<in>set es. text_is_truthy entry \<and> has_embedding_array entry)"
  then have "find (\<lambda>entry. \<not> passes_validation entry) es = None"
    by (auto simp: find_None_iff passes_validation_def)
  with a show "load entries (Parsed parsed) = (None, es)"
    by (simp add: load_entries_array validate_entries_find)
next
  assume failed: "fst (load entries content) \<noteq> None"
  show "snd (load entries content) = entries"
  proof (cases content)
    case (Parsed parsed')
    show ?thesis
    proof (cases "entries_array parsed'")
      case None
      with Parsed show ?thesis by (simp add: load_no_entries_array)
    next
      case (Some es)
      with Parsed failed show ?thesis
        by (cases "validate_entries es") (simp_all add: load_entries_array)
    qed
  qed (use failed in \<open>simp_all add: load_def\<close>)
next
  assume "has_nonempty_label entry"
  then show "text_is_truthy entry" by (rule nonempty_label_is_truthy)
next
  assume "get_property entry ''text'' = Some Undefined
    \<or> get_property entry ''text'' = Some (Json (JStr []))"
  then show "\<not> text_is_truthy entry"
    by (auto simp: text_is_truthy_def)
qed

theorem load_all_or_nothing_witness:
  "load [JStr ''kept''] ENOENT = (None, [])
   \<and> load [JStr ''kept''] Not_JSON
       = (Some (Failed_to_load_vector_store JSON_syntax_error), [JStr ''kept''])
   \<and> load [JStr ''kept''] (Parsed (JObj [(''items'', JArr [])]))
       = (Some (Failed_to_load_vector_store Invalid_vector_store_file_format), [JStr ''kept''])
   \<and> load [JStr ''kept'']
        (Parsed (JObj [(''entries'',
           JArr [JObj [(''text'', JStr ''India''), (''embedding'', JArr [JNum 1])],
                 JObj [(''text'', JStr []), (''embedding'', JArr [JNum 1])]])]))
       = (Some (Failed_to_load_vector_store Invalid_entry_format_in_vector_store_file),
          [JStr ''kept''])
   \<and> load [JStr ''kept'']
        (Parsed (JObj [(''entries'',
           JArr [JObj [(''text'', JStr ''India''), (''embedding'', JArr [JNum 1])]])]))
       = (None, [JObj [(''text'', JStr ''India''), (''embedding'', JArr [JNum 1])]])
   \<and> has_nonempty_label (JObj [(''text'', JStr ''India''), (''embedding'', JArr [JNum 1])])
   \<and> text_is_truthy (JObj [(''text'', JStr ''India''), (''embedding'', JArr [JNum 1])])"
  using load_all_or_nothing [of "[JStr ''kept'']" "''''" "JObj [(''items'', JArr [])]" ENOENT
      "JObj [(''text'', JStr ''India''), (''embedding'', JArr [JNum 1])]"]
    load_all_or_nothing [of "[JStr ''kept'']" "''''"
      "JObj [(''entries'',
           JArr [JObj [(''text'', JStr ''India''), (''embedding'', JArr [JNum 1])],
                 JObj [(''text'', JStr []), (''embedding'', JArr [JNum 1])]])]" ENOENT JNull]
    load_all_or_nothing [of "[JStr ''kept'']" "''''"
      "JObj [(''entries'',
           JArr [JObj [(''text'', JStr ''India''), (''embedding'', JArr [JNum 1])]])]" ENOENT JNull]
  by (simp add: entries_array_def text_is_truthy_def has_nonempty_label_def
        has_embedding_array_def passes_validation_def load_def)

text \<open>
  The claim as it stands: an entry whose \<open>text\<close> is the number 5 has no non-empty
  label, the label of the data model being a string; the load succeeds all the same
  and the entry replaces the store's.
\<close>

theorem load_all_or_nothing_counterexample:
  "\<not> has_nonempty_label (JObj [(''text'', JNum 5), (''embedding'', JArr [])])
   \<and> load [JStr ''kept'']
        (Parsed (JObj [(''entries'',
           JArr [JObj [(''text'', JNum 5), (''embedding'', JArr [])]])]))
       = (None, [JObj [(''text'', JNum 5), (''embedding'', JArr [])]])"
  by (simp add: has_nonempty_label_def load_def)

section \<open>Properties of the oracle calls\<close>

lemma retry_loop_unfold:
  "retry_loop final rs 0 =
     (case rs 0 of
        Valid_JSON v \<Rightarrow> (1, Inr v)
      | Throws e \<Rightarrow> (1, Inl (Rethrown e))
      | Invalid_JSON \<Rightarrow>
          (case rs 1 of
             Valid_JSON v \<Rightarrow> (2, Inr v)
           | Throws e \<Rightarrow> (2, Inl (Rethrown e))
           | Invalid_JSON \<Rightarrow>
               (case rs 2 of
                  Valid_JSON v \<Rightarrow> (3, Inr v)
                | Throws e \<Rightarrow> (3, Inl (Rethrown e))
                | Invalid_JSON \<Rightarrow> (3, Inl Failed_to_parse_JSON_response_after_3_attempts))))"
  by (auto simp: numeral_2_eq_2 split: attempt.splits)

lemma retry_loop_requests:
  "1 \<le> fst (retry_loop final rs 0) \<and> fst (retry_loop final rs 0) \<le> 3"
  unfolding retry_loop_unfold by (simp split: attempt.splits)

lemma less_3_cases: "i < 3 \<longleftrightarrow> i = 0 \<or> i = Suc 0 \<or> i = 2" for i :: nat
  by auto

lemma retry_loop_returns:
  "i < 3 \<Longrightarrow> \<forall>j<i. rs j = Invalid_JSON \<Longrightarrow> rs i = Valid_JSON v \<Longrightarrow>
   retry_loop final rs 0 = (i + 1, Inr v)"
  unfolding retry_loop_unfold less_3_cases by (auto split: attempt.splits)

lemma retry_loop_rethrows:
  "i < 3 \<Longrightarrow> \<forall>j<i. rs j = Invalid_JSON \<Longrightarrow> rs i = Throws e \<Longrightarrow>
   retry_loop final rs 0 = (i + 1, Inl (Rethrown e))"
  unfolding retry_loop_unfold less_3_cases by (auto split: attempt.splits)

lemma retry_loop_gives_up:
  "\<forall>j<3. rs j = Invalid_JSON \<Longrightarrow>
   retry_loop final rs 0 = (3, Inl Failed_to_parse_JSON_response_after_3_attempts)"
  unfolding retry_loop_unfold by (simp add: numeral_3_eq_3)

lemma caller_is_retry_loop:
  assumes "call = chooseNextGraphNode \<or> call = extractEntities \<or> call = extractRDFTriples"
  shows "\<exists>final. call oracle p = retry_loop final (oracle p) 0"
  using assms
  by (auto simp: chooseNextGraphNode_def extractEntities_def extractRDFTriples_def)

text \<open>
  C6, as the code has it. Each of the three oracle calls with a parsed reply sends at
  least one and at most three requests. A reply that is not valid JSON (\<open>JSON.parse\<close>
  throws a SyntaxError) makes the call send the request again; a reply that is valid
  JSON is returned at once, whatever its shape; any other error is rethrown at once;
  and after three replies that are not valid JSON the call fails with
  \<open>Failed to parse JSON response after 3 attempts\<close>.
\<close>

theorem oracle_call_retry:
  assumes "call = chooseNextGraphNode \<or> call = extractEntities \<or> call = extractRDFTriples"
  shows "1 \<le> fst (call oracle p) \<and> fst (call oracle p) \<le> 3
    \<and> (\<forall>i v. i < 3 \<and> (\<forall>j<i. oracle p j = Invalid_JSON) \<and> oracle p i = Valid_JSON v
          \<longrightarrow> call oracle p = (i + 1, Inr v))
    \<and> (\<forall>i e. i < 3 \<and> (\<forall>j<i. oracle p j = Invalid_JSON) \<and> oracle p i = Throws e
          \<longrightarrow> call oracle p = (i + 1, Inl (Rethrown e)))
    \<and> ((\<forall>j<3. oracle p j = Invalid_JSON)
          \<longrightarrow> call oracle p = (3, Inl Failed_to_parse_JSON_response_after_3_attempts))"
proof -
  from caller_is_retry_loop [OF assms] obtain final
    where call: "call oracle p = retry_loop final (oracle p) 0"
    by blast
  show ?thesis
    unfolding call
    using retry_loop_requests [of final "oracle p"]
      retry_loop_returns [of _ "oracle p" _ final]
      retry_loop_rethrows [of _ "oracle p" _ final]
      retry_loop_gives_up [of "oracle p" final]
    by blast
qed

theorem oracle_call_retry_witness:
  "extractEntities (scripted [Invalid_JSON, Valid_JSON [''India'']]) ''Radio City is in India.''
     = (2, Inr [''India''])
   \<and> chooseNextGraphNode
        (scripted [Invalid_JSON, Invalid_JSON, Invalid_JSON, Valid_JSON [''India'']])
        ''Where is Radio City?''
     = (3, Inl Failed_to_parse_JSON_response_after_3_attempts)
   \<and> extractRDFTriples (scripted [Throws ''429 Too Many Requests'', Valid_JSON [''India'']])
        ''Radio City is in India.''
     = (1, Inl (Rethrown ''429 Too Many Requests''))"
proof -
  have "extractEntities (scripted [Invalid_JSON, Valid_JSON [''India'']])
          ''Radio City is in India.'' = (2, Inr [''India''])"
    using oracle_call_retry
      [of extractEntities "scripted [Invalid_JSON, Valid_JSON [''India'']]"
          "''Radio City is in India.''"]
    by (simp add: scripted_def extractEntities_def)
  moreover have "chooseNextGraphNode
        (scripted [Invalid_JSON, Invalid_JSON, Invalid_JSON, Valid_JSON [''India'']])
        ''Where is Radio City?''
     = (3, Inl Failed_to_parse_JSON_response_after_3_attempts)"
    using oracle_call_retry
      [of chooseNextGraphNode
          "scripted [Invalid_JSON, Invalid_JSON, Invalid_JSON, Valid_JSON [''India'']]"
          "''Where is Radio City?''"]
    by (simp add: scripted_def chooseNextGraphNode_def)
  moreover have "extractRDFTriples
        (scripted [Throws ''429 Too Many Requests'', Valid_JSON [''India'']])
        ''Radio City is in India.''
     = (1, Inl (Rethrown ''429 Too Many Requests''))"
    using oracle_call_retry
      [of extractRDFTriples
          "scripted [Throws ''429 Too Many Requests'', Valid_JSON [''India'']]"
          "''Radio City is in India.''"]
    by (simp add: scripted_def extractRDFTriples_def)
  ultimately show ?thesis by blast
qed

text \<open>
  The claim as it stands: a reply that does not have the expected structure is
  retried. \<open>extractEntities\<close> asks for an array of strings; an object that wraps the
  array is valid JSON, so it is returned after one request, with no retry and no
  error.
\<close>

theorem oracle_call_retry_counterexample:
  "\<not> is_string_array (JObj [(''entities'', JArr [JStr ''India''])])
   \<and> extractEntities (scripted [Valid_JSON (JObj [(''entities'', JArr [JStr ''India''])])])
        ''Radio City is in India.''
      = (1, Inr (JObj [(''entities'', JArr [JStr ''India''])]))"
  by (simp add: extractEntities_def scripted_def)

section \<open>Properties of the traversal\<close>

lemma visited_test:
  "list_ex (\<lambda>v. subject v = subject_t n \<and> predicate v = predicate_t n
                 \<and> value_n v = object_t n \<and> chunk v = graph_t n) visited
   \<longleftrightarrow> node_of n \<in> set visited"
proof -
  have "(subject v = subject_t n \<and> predicate v = predicate_t n
         \<and> value_n v = object_t n \<and> chunk v = graph_t n) \<longleftrightarrow> v = node_of n" for v
    by (cases v) (auto simp: node_of_def)
  then show ?thesis by (auto simp: list_ex_iff)
qed

lemma visit_loop_new:
  "visit_loop queryNodes tmp visited = (tmp', visited') \<Longrightarrow>
   \<exists>new. tmp' = tmp @ new \<and> visited' = visited @ new \<and> distinct new
     \<and> set new = node_of ` set queryNodes - set visited"
proof (induction queryNodes arbitrary: tmp visited)
  case Nil
  then show ?case by simp
next
  case (Cons n queryNodes)
  show ?case
  proof (cases "node_of n \<in> set visited")
    case True
    with Cons.prems have "visit_loop queryNodes tmp visited = (tmp', visited')"
      by (simp add: visited_test)
    from Cons.IH [OF this] True show ?thesis by auto
  next
    case False
    with Cons.prems have
      "visit_loop queryNodes (tmp @ [node_of n]) (visited @ [node_of n]) = (tmp', visited')"
      by (simp add: visited_test)
    from Cons.IH [OF this] obtain new where new:
      "tmp' = (tmp @ [node_of n]) @ new" "visited' = (visited @ [node_of n]) @ new"
      "distinct new" "set new = node_of ` set queryNodes - set (visited @ [node_of n])"
      by blast
    have "tmp' = tmp @ (node_of n # new)" "visited' = visited @ (node_of n # new)"
      using new by simp_all
    moreover have "distinct (node_of n # new)" using new by auto
    moreover have "set (node_of n # new) = node_of ` set (n # queryNodes) - set visited"
      using new False by auto
    ultimately show ?thesis by blast
  qed
qed

lemma follow_nodes_new:
  "follow_nodes rdfStore nextNodes allNodes0 visited = (allNodes', visited') \<Longrightarrow>
   \<exists>new. allNodes' = allNodes0 @ new \<and> visited' = visited @ new \<and> distinct new
     \<and> set new = (\<Union>node\<in>set nextNodes. node_of ` set (queryNodes_of rdfStore node))
                  - set visited"
proof (induction nextNodes arbitrary: allNodes0 visited)
  case Nil
  then show ?case by simp
next
  case (Cons node nextNodes)
  obtain tmp visited1 where
    first: "visit_loop (queryNodes_of rdfStore node) [] visited = (tmp, visited1)"
    by (cases "visit_loop (queryNodes_of rdfStore node) [] visited")
  with Cons.prems have
    rest: "follow_nodes rdfStore nextNodes (allNodes0 @ tmp) visited1 = (allNodes', visited')"
    by simp
  from visit_loop_new [OF first] have tmp:
    "visited1 = visited @ tmp" "distinct tmp"
    "set tmp = node_of ` set (queryNodes_of rdfStore node) - set visited"
    by auto
  from Cons.IH [OF rest] obtain new where new:
    "allNodes' = (allNodes0 @ tmp) @ new" "visited' = visited1 @ new" "distinct new"
    "set new = (\<Union>node\<in>set nextNodes. node_of ` set (queryNodes_of rdfStore node))
                - set visited1"
    by blast
  have "allNodes' = allNodes0 @ (tmp @ new)" "visited' = visited @ (tmp @ new)"
    using new tmp by simp_all
  moreover have "distinct (tmp @ new)" using new tmp by auto
  moreover have "set (tmp @ new)
      = (\<Union>node\<in>set (node # nextNodes). node_of ` set (queryNodes_of rdfStore node))
          - set visited"
    using new tmp by auto
  ultimately show ?case by blast
qed

text \<open>
  C5. In one EXPAND step (the loop over the selected nodes, entered with an empty
  \<open>allNodes\<close>), the visited list grows by exactly the new frontier; the new frontier
  holds no fact twice, also when a fact answers both queries of a node or the
  queries of several nodes of the hop; it holds no fact that was visited before;
  and it holds every fact found by the queries that was not visited before. A
  visited list without repetition stays so.
\<close>

theorem expand_adds_first_seen_only:
  assumes "follow_nodes rdfStore nextNodes [] visited = (allNodes', visited')"
  shows "visited' = visited @ allNodes'
    \<and> distinct allNodes'
    \<and> set allNodes' \<inter> set visited = {}
    \<and> set allNodes'
        = (\<Union>node\<in>set nextNodes. node_of ` set (queryNodes_of rdfStore node)) - set visited
    \<and> (distinct visited \<longrightarrow> distinct visited')"
  using follow_nodes_new [OF assms] by auto

theorem expand_adds_first_seen_only_witness:
  "follow_nodes
     [\<lparr>subject_t = ''A'', predicate_t = ''p'', object_t = ''B'', graph_t = ''chunk_0''\<rparr>,
      \<lparr>subject_t = ''A'', predicate_t = ''q'', object_t = ''C'', graph_t = ''chunk_1''\<rparr>]
     [\<lparr>subject = ''A'', predicate = ''p'', value_n = ''B'', chunk = ''chunk_0''\<rparr>]
     []
     [\<lparr>subject = ''A'', predicate = ''q'', value_n = ''C'', chunk = ''chunk_1''\<rparr>]
   = ([\<lparr>subject = ''A'', predicate = ''p'', value_n = ''B'', chunk = ''chunk_0''\<rparr>],
      [\<lparr>subject = ''A'', predicate = ''q'', value_n = ''C'', chunk = ''chunk_1''\<rparr>,
       \<lparr>subject = ''A'', predicate = ''p'', value_n = ''B'', chunk = ''chunk_0''\<rparr>])"
proof -
  let ?store =
    "[\<lparr>subject_t = ''A'', predicate_t = ''p'', object_t = ''B'', graph_t = ''chunk_0''\<rparr>,
      \<lparr>subject_t = ''A'', predicate_t = ''q'', object_t = ''C'', graph_t = ''chunk_1''\<rparr>]"
  let ?ab = "\<lparr>subject = ''A'', predicate = ''p'', value_n = ''B'', chunk = ''chunk_0''\<rparr>"
  let ?ac = "\<lparr>subject = ''A'', predicate = ''q'', value_n = ''C'', chunk = ''chunk_1''\<rparr>"
  have run: "follow_nodes ?store [?ab] [] [?ac] = ([?ab], [?ac, ?ab])"
    by (simp add: queryNodes_of_def match_object_def match_subject_def node_of_def)
  from expand_adds_first_seen_only [OF run] show ?thesis
    using run by simp
qed
lemma traverse_stop:
  "depth s > 2 \<or> allNodes s = [] \<Longrightarrow> queryPDF_loop orc rdfStore s = (depth s, Inr s)"
  by (subst queryPDF_loop.simps) auto

lemma traverse_throw:
  "\<not> depth s > 2 \<Longrightarrow> allNodes s \<noteq> [] \<Longrightarrow>
   snd (chooseNextGraphNode (orc (depth s)) (allNodes s)) = Inl err \<Longrightarrow>
   queryPDF_loop orc rdfStore s = (depth s + 1, Inl err)"
  by (subst queryPDF_loop.simps) simp

lemma traverse_hop:
  "\<not> depth s > 2 \<Longrightarrow> allNodes s \<noteq> [] \<Longrightarrow>
   snd (chooseNextGraphNode (orc (depth s)) (allNodes s)) = Inr nextNodes \<Longrightarrow>
   follow_nodes rdfStore nextNodes [] (visitedNodes s) = (allNodes', visited') \<Longrightarrow>
   queryPDF_loop orc rdfStore s
     = queryPDF_loop orc rdfStore
         \<lparr>depth = depth s + 1, allNodes = allNodes', visitedNodes = visited'\<rparr>"
  by (subst queryPDF_loop.simps) simp

lemma traverse_hops:
  "depth s \<le> 3 \<Longrightarrow>
   fst (queryPDF_loop orc rdfStore s) \<le> 3
   \<and> depth s \<le> fst (queryPDF_loop orc rdfStore s)
   \<and> (\<forall>s'. snd (queryPDF_loop orc rdfStore s) = Inr s' \<longrightarrow>
          depth s' = fst (queryPDF_loop orc rdfStore s)
          \<and> (depth s' = 3 \<or> allNodes s' = []))"
proof (induction orc rdfStore s rule: queryPDF_loop.induct)
  case (1 orc rdfStore s)
  show ?case
  proof (cases "depth s > 2 \<or> allNodes s = []")
    case True
    then have t: "queryPDF_loop orc rdfStore s = (depth s, Inr s)"
      by (rule traverse_stop)
    from True "1.prems" have "depth s = 3 \<or> allNodes s = []" by linarith
    with "1.prems" show ?thesis unfolding t by simp
  next
    case False
    then have go: "\<not> depth s > 2" "allNodes s \<noteq> []" by simp_all
    show ?thesis
    proof (cases "snd (chooseNextGraphNode (orc (depth s)) (allNodes s))")
      case (Inl err)
      with go have t: "queryPDF_loop orc rdfStore s = (depth s + 1, Inl err)"
        by (rule traverse_throw)
      from go(1) show ?thesis unfolding t by simp
    next
      case (Inr nextNodes)
      obtain allNodes' visited' where
        step: "follow_nodes rdfStore nextNodes [] (visitedNodes s) = (allNodes', visited')"
        by (cases "follow_nodes rdfStore nextNodes [] (visitedNodes s)")
      define s1 where "s1 = \<lparr>depth = depth s + 1, allNodes = allNodes', visitedNodes = visited'\<rparr>"
      have eq: "queryPDF_loop orc rdfStore s = queryPDF_loop orc rdfStore s1"
        unfolding s1_def using go Inr step by (rule traverse_hop)
      have d1: "depth s1 = depth s + 1" by (simp add: s1_def)
      then have "depth s1 \<le> 3" using go(1) by simp
      from "1.IH" [OF go(1) _ Inr step [symmetric], folded s1_def, OF _ this] go(2)
      have ih: "fst (queryPDF_loop orc rdfStore s1) \<le> 3"
        "depth s1 \<le> fst (queryPDF_loop orc rdfStore s1)"
        "\<forall>s'. snd (queryPDF_loop orc rdfStore s1) = Inr s' \<longrightarrow>
          depth s' = fst (queryPDF_loop orc rdfStore s1)
          \<and> (depth s' = 3 \<or> allNodes s' = [])"
        by blast+
      have "depth s \<le> fst (queryPDF_loop orc rdfStore s1)"
        using ih(2) d1 by linarith
      with ih(1,3) show ?thesis
        unfolding eq by blast
    qed
  qed
qed

lemma traverse_distinct:
  "distinct (visitedNodes s) \<Longrightarrow> snd (queryPDF_loop orc rdfStore s) = Inr s' \<Longrightarrow>
   distinct (visitedNodes s')"
proof (induction orc rdfStore s rule: queryPDF_loop.induct)
  case (1 orc rdfStore s)
  show ?case
  proof (cases "depth s > 2 \<or> allNodes s = []")
    case True
    with "1.prems" show ?thesis by (auto simp: traverse_stop)
  next
    case False
    then have go: "\<not> depth s > 2" "allNodes s \<noteq> []" by auto
    show ?thesis
    proof (cases "snd (chooseNextGraphNode (orc (depth s)) (allNodes s))")
      case (Inl err)
      with go "1.prems" show ?thesis by (simp add: traverse_throw)
    next
      case (Inr nextNodes)
      obtain allNodes' visited' where
        step: "follow_nodes rdfStore nextNodes [] (visitedNodes s) = (allNodes', visited')"
        by (cases "follow_nodes rdfStore nextNodes [] (visitedNodes s)")
      let ?s' = "\<lparr>depth = depth s + 1, allNodes = allNodes', visitedNodes = visited'\<rparr>"
      have eq: "queryPDF_loop orc rdfStore s = queryPDF_loop orc rdfStore ?s'"
        using go Inr step by (rule traverse_hop)
      have d: "distinct (visitedNodes ?s')"
        using follow_nodes_new [OF step] "1.prems"(1) by auto
      from "1.prems"(2) have "snd (queryPDF_loop orc rdfStore ?s') = Inr s'"
        unfolding eq .
      from "1.IH" [OF go(1) _ Inr step [symmetric] d this] go(2) show ?thesis
        by auto
    qed
  qed
qed

lemma count_list_map_distinct:
  "distinct xs \<Longrightarrow> count_list (map f xs) i = card {n \<in> set xs. f n = i}"
proof -
  assume d: "distinct xs"
  have "count_list (map f xs) i = length (filter (\<lambda>n. f n = i) xs)"
    by (induction xs) simp_all
  also have "\<dots> = card {n \<in> set xs. f n = i}"
    using d distinct_card [of "filter (\<lambda>n. f n = i) xs"] by simp
  finally show ?thesis .
qed

text \<open>
  C4. The loop of \<open>queryPDF\<close> returns for every oracle, every store and every initial
  frontier (the definition of \<open>queryPDF_loop\<close> carries the proof: \<open>3 - depth\<close> decreases at
  every hop), after at most three hops. When it ends by a \<open>break\<close>, the hop counter
  is the number of hops made and it is 3 or the frontier is empty. In a state where
  the counter exceeds 2 or the frontier is empty, it stops at once, without a call
  to the oracle.
\<close>

theorem traverse_within_three_hops:
  "fst (queryPDF_loop oracle rdfStore (initial seed)) \<le> 3
   \<and> (\<forall>s. snd (queryPDF_loop oracle rdfStore (initial seed)) = Inr s \<longrightarrow>
          depth s = fst (queryPDF_loop oracle rdfStore (initial seed))
          \<and> (depth s = 3 \<or> allNodes s = []))
   \<and> (depth s0 > 2 \<or> allNodes s0 = [] \<longrightarrow> queryPDF_loop oracle rdfStore s0 = (depth s0, Inr s0))"
proof -
  have "depth (initial seed) \<le> 3" by (simp add: initial_def)
  from traverse_hops [OF this, of "oracle" rdfStore] traverse_stop [of s0 "oracle" rdfStore]
  show ?thesis by blast
qed

text \<open>
  A graph with the cycle A, B, A, entered at both facts: two hops, the second finds
  nothing new. And a chain that still has a frontier after three hops: the depth
  limit ends the run.
\<close>

theorem traverse_within_three_hops_witness:
  "queryPDF_loop select_all
     [\<lparr>subject_t = ''A'', predicate_t = ''knows'', object_t = ''B'', graph_t = ''chunk_0''\<rparr>,
      \<lparr>subject_t = ''B'', predicate_t = ''knows'', object_t = ''A'', graph_t = ''chunk_1''\<rparr>]
     (initial
       [\<lparr>subject = ''A'', predicate = ''knows'', value_n = ''B'', chunk = ''chunk_0''\<rparr>,
        \<lparr>subject = ''B'', predicate = ''knows'', value_n = ''A'', chunk = ''chunk_1''\<rparr>])
   = (2, Inr \<lparr>depth = 2, allNodes = [],
        visitedNodes =
          [\<lparr>subject = ''A'', predicate = ''knows'', value_n = ''B'', chunk = ''chunk_0''\<rparr>,
           \<lparr>subject = ''B'', predicate = ''knows'', value_n = ''A'', chunk = ''chunk_1''\<rparr>]\<rparr>)
   \<and> queryPDF_loop select_all
     [\<lparr>subject_t = ''A'', predicate_t = ''p'', object_t = ''X'', graph_t = ''chunk_0''\<rparr>,
      \<lparr>subject_t = ''A'', predicate_t = ''q'', object_t = ''Y'', graph_t = ''chunk_0''\<rparr>,
      \<lparr>subject_t = ''B'', predicate_t = ''r'', object_t = ''Y'', graph_t = ''chunk_1''\<rparr>,
      \<lparr>subject_t = ''B'', predicate_t = ''s'', object_t = ''Z'', graph_t = ''chunk_2''\<rparr>,
      \<lparr>subject_t = ''C'', predicate_t = ''t'', object_t = ''Z'', graph_t = ''chunk_3''\<rparr>]
     (initial [\<lparr>subject = ''A'', predicate = ''p'', value_n = ''X'', chunk = ''chunk_0''\<rparr>])
   = (3, Inr \<lparr>depth = 3,
        allNodes = [\<lparr>subject = ''B'', predicate = ''s'', value_n = ''Z'', chunk = ''chunk_2''\<rparr>],
        visitedNodes =
          [\<lparr>subject = ''A'', predicate = ''p'', value_n = ''X'', chunk = ''chunk_0''\<rparr>,
           \<lparr>subject = ''A'', predicate = ''q'', value_n = ''Y'', chunk = ''chunk_0''\<rparr>,
           \<lparr>subject = ''B'', predicate = ''r'', value_n = ''Y'', chunk = ''chunk_1''\<rparr>,
           \<lparr>subject = ''B'', predicate = ''s'', value_n = ''Z'', chunk = ''chunk_2''\<rparr>]\<rparr>)"
  using traverse_within_three_hops
    [of select_all
        "[\<lparr>subject_t = ''A'', predicate_t = ''knows'', object_t = ''B'', graph_t = ''chunk_0''\<rparr>,
          \<lparr>subject_t = ''B'', predicate_t = ''knows'', object_t = ''A'', graph_t = ''chunk_1''\<rparr>]"
        "[\<lparr>subject = ''A'', predicate = ''knows'', value_n = ''B'', chunk = ''chunk_0''\<rparr>,
          \<lparr>subject = ''B'', predicate = ''knows'', value_n = ''A'', chunk = ''chunk_1''\<rparr>]"
        "initial []"]
  by (simp add: queryPDF_loop.simps initial_def select_all_def chooseNextGraphNode_def
        queryNodes_of_def match_object_def match_subject_def node_of_def)

text \<open>
  C1, as the code has it. When the traversal ends by a \<open>break\<close>, the result handed
  on is the list of the provenance indices of the visited facts, one element for
  each visited fact, in the order of the visits. The visited facts are distinct, the
  indices in the result are exactly the indices of the visited facts, and an index
  occurs in the result as many times as there are visited facts that carry it.
\<close>

theorem retrieval_result_per_visited_fact:
  assumes "snd (queryPDF_loop oracle rdfStore (initial seed)) = Inr s"
  shows "queryPDF_chunkIndices oracle rdfStore seed = Inr (map chunk_index (visitedNodes s))
    \<and> distinct (visitedNodes s)
    \<and> set (map chunk_index (visitedNodes s)) = chunk_index ` set (visitedNodes s)
    \<and> (\<forall>i. count_list (map chunk_index (visitedNodes s)) i
             = card {n \<in> set (visitedNodes s). chunk_index n = i})"
proof -
  have "distinct (visitedNodes (initial seed))" by (simp add: initial_def)
  from traverse_distinct [OF this assms] have d: "distinct (visitedNodes s)" .
  have "queryPDF_chunkIndices oracle rdfStore seed = Inr (map chunk_index (visitedNodes s))"
    using assms by (simp add: queryPDF_chunkIndices_def chunkIndices_def)
  with d show ?thesis
    by (simp add: count_list_map_distinct)
qed

text \<open>
  The frontier is seeded from the label \<open>Radio City\<close>; its two facts come from two
  chunks.
\<close>

theorem retrieval_result_per_visited_fact_witness:
  "queryPDF_chunkIndices select_all
     [\<lparr>subject_t = ''Radio City'', predicate_t = ''located in'', object_t = ''India'',
       graph_t = ''chunk_0''\<rparr>,
      \<lparr>subject_t = ''India'', predicate_t = ''has'', object_t = ''Hindi'',
       graph_t = ''chunk_4''\<rparr>]
     (seed_nodes
        [\<lparr>subject_t = ''Radio City'', predicate_t = ''located in'', object_t = ''India'',
          graph_t = ''chunk_0''\<rparr>,
         \<lparr>subject_t = ''India'', predicate_t = ''has'', object_t = ''Hindi'',
          graph_t = ''chunk_4''\<rparr>]
        [\<lparr>text_s = ''India'', similarity = 1 :: real\<rparr>, \<lparr>text_s = ''Radio City'', similarity = 0\<rparr>])
   = Inr [Some ''4'', Some ''0'']"
proof -
  let ?store =
    "[\<lparr>subject_t = ''Radio City'', predicate_t = ''located in'', object_t = ''India'',
       graph_t = ''chunk_0''\<rparr>,
      \<lparr>subject_t = ''India'', predicate_t = ''has'', object_t = ''Hindi'',
       graph_t = ''chunk_4''\<rparr>]"
  let ?seed = "seed_nodes ?store
     [\<lparr>text_s = ''India'', similarity = 1 :: real\<rparr>, \<lparr>text_s = ''Radio City'', similarity = 0\<rparr>]"
  let ?final =
    "\<lparr>depth = 2, allNodes = [],
      visitedNodes =
        [\<lparr>subject = ''India'', predicate = ''has'', value_n = ''Hindi'',
          chunk = ''chunk_4''\<rparr>,
         \<lparr>subject = ''Radio City'', predicate = ''located in'', value_n = ''India'',
          chunk = ''chunk_0''\<rparr>]\<rparr>"
  have run: "snd (queryPDF_loop select_all ?store (initial ?seed)) = Inr ?final"
    by (simp add: queryPDF_loop.simps initial_def select_all_def chooseNextGraphNode_def
          seed_nodes_def queryNodes_of_def match_object_def match_subject_def node_of_def)
  from retrieval_result_per_visited_fact [OF run] show ?thesis
    by (simp add: chunk_index_def)
qed

text \<open>
  The claim as it stands: two visited facts of the same chunk, and the identifier
  of the chunk is handed on twice.
\<close>

theorem retrieval_result_per_visited_fact_counterexample:
  "queryPDF_chunkIndices select_all
     [\<lparr>subject_t = ''Radio City'', predicate_t = ''located in'', object_t = ''India'',
       graph_t = ''chunk_0''\<rparr>,
      \<lparr>subject_t = ''Radio City'', predicate_t = ''started on'', object_t = ''3 July 2001'',
       graph_t = ''chunk_0''\<rparr>]
     [\<lparr>subject = ''Radio City'', predicate = ''located in'', value_n = ''India'',
       chunk = ''chunk_0''\<rparr>]
   = Inr [Some ''0'', Some ''0'']
   \<and> \<not> distinct [Some ''0'', Some ''0'']"
  by (simp add: queryPDF_chunkIndices_def queryPDF_loop.simps initial_def select_all_def chooseNextGraphNode_def
        queryNodes_of_def match_object_def match_subject_def node_of_def
        chunkIndices_def chunk_index_def)

section \<open>Properties of the packing\<close>

lemma block_length:
  "length (block a) = length (chunk_q a) + length (string_of_int (index_q a)) + 12"
  by (simp add: block_def)

lemma build_context_admitted:
  "build_context m qa ctx idx
     = (ctx @ concat (map block (take (admitted m (length ctx) qa) qa)),
        idx @ map index_q (take (admitted m (length ctx) qa) qa))"
  by (induction qa arbitrary: ctx idx) simp_all

lemma admitted_le: "admitted m used qa \<le> length qa"
  by (induction qa arbitrary: used) simp_all

lemma admitted_passed:
  "k < admitted m used qa \<Longrightarrow>
   used + length (concat (map block (take k qa))) + length (chunk_q (qa ! k)) \<le> m"
proof (induction qa arbitrary: used k)
  case Nil
  then show ?case by simp
next
  case (Cons a qa)
  from Cons.prems have fits: "used + length (chunk_q a) \<le> m"
    by (simp split: if_splits)
  show ?case
  proof (cases k)
    case 0
    with fits show ?thesis by simp
  next
    case (Suc j)
    with Cons.prems fits have "j < admitted m (used + length (block a)) qa" by simp
    from Cons.IH [OF this] Suc show ?thesis by (simp add: add.assoc)
  qed
qed

lemma admitted_stopped:
  "admitted m used qa < length qa \<Longrightarrow>
   m < used + length (concat (map block (take (admitted m used qa) qa)))
         + length (chunk_q (qa ! admitted m used qa))"
proof (induction qa arbitrary: used)
  case Nil
  then show ?case by simp
next
  case (Cons a qa)
  show ?case
  proof (cases "used + length (chunk_q a) \<le> m")
    case True
    with Cons.prems have "admitted m (used + length (block a)) qa < length qa" by simp
    from Cons.IH [OF this] True show ?thesis by (simp add: add.assoc)
  next
    case False
    then show ?thesis by simp
  qed
qed

lemma admitted_chunks:
  "0 < admitted m used qa \<Longrightarrow>
   used + (\<Sum>a\<leftarrow>take (admitted m used qa) qa. length (chunk_q a)) \<le> m"
proof (induction qa arbitrary: used)
  case Nil
  then show ?case by simp
next
  case (Cons a qa)
  from Cons.prems have fits: "used + length (chunk_q a) \<le> m"
    by (simp split: if_splits)
  show ?case
  proof (cases "admitted m (used + length (block a)) qa")
    case 0
    with fits show ?thesis by simp
  next
    case (Suc j)
    then have "0 < admitted m (used + length (block a)) qa" by simp
    from Cons.IH [OF this] fits show ?thesis
      by (simp add: block_length)
  qed
qed

lemma admitted_context:
  "0 < admitted m used qa \<Longrightarrow>
   used + length (concat (map block (take (admitted m used qa) qa)))
     \<le> m + length (string_of_int (index_q (qa ! (admitted m used qa - 1)))) + 12"
proof (induction qa arbitrary: used)
  case Nil
  then show ?case by simp
next
  case (Cons a qa)
  from Cons.prems have fits: "used + length (chunk_q a) \<le> m"
    by (simp split: if_splits)
  show ?case
  proof (cases "admitted m (used + length (block a)) qa")
    case 0
    with fits show ?thesis by (simp add: block_length)
  next
    case (Suc j)
    then have "0 < admitted m (used + length (block a)) qa" by simp
    from Cons.IH [OF this] fits Suc show ?thesis
      by (simp add: add.assoc)
  qed
qed

text \<open>
  C9, as the code has it. The packed context is made of the blocks of the first
  \<open>n\<close> chunks of the list, whole and in order, and the indices handed on are
  theirs. Each of them passed the test: its text, added to the length of the context
  built before it, did not exceed the budget. The chunk after them, if there is one,
  failed that test. The texts of the packed chunks together do not exceed the budget;
  the packed context, which also holds their headers and separators, exceeds it by
  no more than the header and separators of the last packed chunk.
\<close>

theorem packed_context_whole_chunks:
  "\<exists>n. n \<le> length qaInput
     \<and> llm_do_question_answer_context qaInput max_characters
         = (concat (map block (take n qaInput)), map index_q (take n qaInput))
     \<and> (\<forall>k<n. length (concat (map block (take k qaInput))) + length (chunk_q (qaInput ! k))
                 \<le> max_characters)
     \<and> (n < length qaInput \<longrightarrow>
          max_characters
            < length (concat (map block (take n qaInput))) + length (chunk_q (qaInput ! n)))
     \<and> (\<Sum>a\<leftarrow>take n qaInput. length (chunk_q a)) \<le> max_characters
     \<and> (0 < n \<longrightarrow>
          length (fst (llm_do_question_answer_context qaInput max_characters))
            \<le> max_characters + length (string_of_int (index_q (qaInput ! (n - 1)))) + 12)"
proof -
  define n where "n = admitted max_characters 0 qaInput"
  have packed: "llm_do_question_answer_context qaInput max_characters
      = (concat (map block (take n qaInput)), map index_q (take n qaInput))"
    using build_context_admitted [of max_characters qaInput "[]" "[]"]
    by (simp add: llm_do_question_answer_context_def n_def)
  have "n \<le> length qaInput"
    unfolding n_def by (rule admitted_le)
  moreover have "\<forall>k<n. length (concat (map block (take k qaInput)))
      + length (chunk_q (qaInput ! k)) \<le> max_characters"
    using admitted_passed [of _ max_characters 0 qaInput] by (simp add: n_def)
  moreover have "n < length qaInput \<longrightarrow>
      max_characters
        < length (concat (map block (take n qaInput))) + length (chunk_q (qaInput ! n))"
    using admitted_stopped [of max_characters 0 qaInput] by (simp add: n_def)
  moreover have "(\<Sum>a\<leftarrow>take n qaInput. length (chunk_q a)) \<le> max_characters"
  proof (cases "0 < n")
    case True
    then show ?thesis
      using admitted_chunks [of max_characters 0 qaInput] by (simp add: n_def)
  next
    case False
    then show ?thesis by simp
  qed
  moreover have "0 < n \<longrightarrow>
      length (fst (llm_do_question_answer_context qaInput max_characters))
        \<le> max_characters + length (string_of_int (index_q (qaInput ! (n - 1)))) + 12"
    using admitted_context [of max_characters 0 qaInput] by (simp add: packed n_def)
  ultimately show ?thesis using packed by blast
qed

text \<open>
  Budget 30: the first chunk is packed (24 characters with its header); the second
  does not fit and ends the loop, though the third would fit.
\<close>

theorem packed_context_whole_chunks_witness:
  "llm_do_question_answer_context
     [\<lparr>chunk_q = ''Radio City'', index_q = 12\<rparr>, \<lparr>chunk_q = ''is in India'', index_q = 3\<rparr>,
      \<lparr>chunk_q = ''x'', index_q = 4\<rparr>] 30
   = (''[Chunk 12]:'' @ [CHR 0x0A] @ ''Radio City'' @ [CHR 0x0A, CHR 0x0A], [12])"
  using packed_context_whole_chunks
    [of "[\<lparr>chunk_q = ''Radio City'', index_q = 12\<rparr>, \<lparr>chunk_q = ''is in India'', index_q = 3\<rparr>,
          \<lparr>chunk_q = ''x'', index_q = 4\<rparr>]" 30]
  by (simp add: llm_do_question_answer_context_def block_def string_of_int_def)

text \<open>
  The claim as it stands: with a budget of 5 characters the chunk of 5 characters
  passes the test and the packed context has 18.
\<close>

theorem packed_context_whole_chunks_counterexample:
  "llm_do_question_answer_context [\<lparr>chunk_q = ''India'', index_q = 0\<rparr>] 5
     = (''[Chunk 0]:'' @ [CHR 0x0A] @ ''India'' @ [CHR 0x0A, CHR 0x0A], [0])
   \<and> length (fst (llm_do_question_answer_context [\<lparr>chunk_q = ''India'', index_q = 0\<rparr>] 5)) = 18
   \<and> \<not> (length (fst (llm_do_question_answer_context [\<lparr>chunk_q = ''India'', index_q = 0\<rparr>] 5)) \<le> 5)"
  by (simp add: llm_do_question_answer_context_def block_def string_of_int_def)

end
